theory Spec2Isabelle
  imports Complex_Main
begin

section \<open>Python values used by \<^verbatim>\<open>nsscheduler/updown.py\<close>\<close>

text \<open>
  Exceptions that the modelled code lets escape. \<open>ValueError\<close> is what \<^verbatim>\<open>int(...)\<close> and
  \<^verbatim>\<open>parse_quantity\<close> raise, \<open>KeyError\<close> a failed dictionary subscript,
  \<open>AttributeError\<close> a method call on \<^verbatim>\<open>None\<close>, \<open>ReError\<close> is \<^verbatim>\<open>re.error\<close>,
  \<open>ApiException\<close> an exception of the cluster client.
\<close>

datatype py_error =
  ValueError | KeyError | AttributeError | ReError | ApiException string | Unmodelled

text \<open>
  \<open>Unmodelled\<close> is no Python exception: the models of the two library functions at the
  end of the definitions (\<open>py_re_compile\<close>, \<open>py_parse_quantity\<close>) cover a fragment of
  their inputs and answer \<open>Unmodelled\<close> outside it.
\<close>

subsection \<open>\<^verbatim>\<open>str(n)\<close> and \<^verbatim>\<open>int(s)\<close>\<close>

text \<open>
  Python integers are unbounded: \<open>int\<close>. Strings are lists of 8-bit characters; the
  functions below describe Python on ASCII text (Python also accepts non-ASCII decimal
  digits and spaces, which lie outside this model). The interpreter's limit on the
  number of digits of one conversion (4300 by default) is not modelled.
\<close>

definition digit_char :: "nat \<Rightarrow> char" where
  "digit_char d = char_of (of_char (CHR ''0'') + d)"

definition is_digit :: "char \<Rightarrow> bool" where
  "is_digit c = (of_char (CHR ''0'') \<le> (of_char c :: nat) \<and> (of_char c :: nat) \<le> of_char (CHR ''9''))"

definition digit_val :: "char \<Rightarrow> nat" where
  "digit_val c = of_char c - of_char (CHR ''0'')"

text \<open>\<^verbatim>\<open>str(n)\<close> for a natural number: its decimal digits, most significant first.\<close>

fun str_nat :: "nat \<Rightarrow> string" where
  "str_nat n = (if n < 10 then [digit_char n] else str_nat (n div 10) @ [digit_char (n mod 10)])"

declare str_nat.simps [simp del]

text \<open>\<^verbatim>\<open>str(n)\<close> for an integer: a minus sign before the digits of a negative number.\<close>

definition py_str :: "int \<Rightarrow> string" where
  "py_str n = (if n < 0 then CHR ''-'' # str_nat (nat (- n)) else str_nat (nat n))"

text \<open>
  The characters that \<^verbatim>\<open>int(s)\<close> strips from both ends of \<open>s\<close>: space, tab, line feed,
  vertical tab, form feed and carriage return.
\<close>

definition is_space :: "char \<Rightarrow> bool" where
  "is_space c = (c = CHR '' '' \<or> (9 \<le> (of_char c :: nat) \<and> (of_char c :: nat) \<le> 13))"

definition strip :: "string \<Rightarrow> string" where
  "strip s = rev (dropWhile is_space (rev (dropWhile is_space s)))"

text \<open>
  The digits of a decimal literal after the first one: digits, with single underscores
  allowed between two digits. \<open>acc\<close> is the value read so far.
\<close>

fun digits_acc :: "nat \<Rightarrow> string \<Rightarrow> nat option" where
  "digits_acc acc [] = Some acc"
| "digits_acc acc (c # cs) =
     (if is_digit c then digits_acc (acc * 10 + digit_val c) cs
      else if c = CHR ''_'' then
        (case cs of
           [] \<Rightarrow> None
         | d # ds \<Rightarrow> if is_digit d then digits_acc acc cs else None)
      else None)"

definition digits_value :: "string \<Rightarrow> nat option" where
  "digits_value s =
     (case s of
        [] \<Rightarrow> None
      | c # cs \<Rightarrow> if is_digit c then digits_acc 0 s else None)"

text \<open>
  \<^verbatim>\<open>int(s)\<close> for a string, base 10: surrounding white space is dropped, then an optional
  sign, then the digits. \<open>None\<close> is the \<open>ValueError\<close> Python raises.
\<close>

definition py_int :: "string \<Rightarrow> int option" where
  "py_int s =
     (case strip s of
        [] \<Rightarrow> None
      | c # cs \<Rightarrow>
          if c = CHR ''-'' then map_option (\<lambda>n. - int n) (digits_value cs)
          else if c = CHR ''+'' then map_option int (digits_value cs)
          else map_option int (digits_value (c # cs)))"

section \<open>Workloads and patches\<close>

text \<open>
  A container of a pod template; \<open>requests\<close> is \<^verbatim>\<open>c.resources.requests\<close>, a dictionary
  (kept as an association list, looked up with \<open>map_of\<close>) or \<open>None\<close>.
\<close>

record container =
  requests :: "(string \<times> string) list option"

text \<open>
  A Deployment or StatefulSet as the cluster client returns it: \<^verbatim>\<open>metadata.name\<close>,
  \<^verbatim>\<open>metadata.namespace\<close>, \<^verbatim>\<open>metadata.annotations\<close>, \<^verbatim>\<open>spec.replicas\<close> and
  \<^verbatim>\<open>spec.template.spec.containers\<close>. The client gives \<^verbatim>\<open>metadata.annotations\<close> as a
  dictionary, or as \<^verbatim>\<open>None\<close> for an object that carries no annotation at all. The
  replicas are an integer, which the cluster sets on every Deployment and StatefulSet.
\<close>

record workload =
  name :: string
  namespace :: string
  annotations :: "(string \<rightharpoonup> string) option"
  replicas :: int
  containers :: "container list"

datatype NamespaceAction = UP | DOWN

definition updown_annotation :: string where
  "updown_annotation = ''ns.scheduler/replicas''"

text \<open>
  The body of a patch request. \<open>metadata\<close> is the entry
  \<^verbatim>\<open>patch["metadata"] = {"annotations": {key: value}}\<close>, held as the pair \<open>(key, value)\<close>;
  \<open>spec\<close> is the entry \<^verbatim>\<open>patch["spec"] = {"replicas": n}\<close>, held as \<open>n\<close>. The empty
  dictionary has neither.
\<close>

record patch =
  metadata :: "(string \<times> string) option"
  spec :: "int option"

definition empty_patch :: patch where
  "empty_patch = \<lparr>metadata = None, spec = None\<rparr>"

text \<open>The three log lines of \<^verbatim>\<open>modify_workload\<close>, with the values they interpolate.\<close>

datatype log_entry =
    Scaled string string string int
  | Failed string string string string
  | LeftIntact string string string int

text \<open>
  What one call of \<^verbatim>\<open>modify_workload\<close> leaves behind: the two locals the specification
  speaks about, the log line, and the state of the patch client.
\<close>

record 'c outcome =
  desired_replicas :: int
  built_patch :: patch
  logged :: log_entry
  client :: 'c

text \<open>
  \<^verbatim>\<open>modify_workload(action, workload, kind, updater)\<close>. The \<open>updater\<close> is the client's
  patch method: it receives name, namespace and body, acts on the client's state \<open>'c\<close>
  and either returns (\<open>None\<close>) or raises an exception with a message (\<open>Some msg\<close>),
  which the \<^verbatim>\<open>try\<close> block catches and logs. Line 174 is outside the \<^verbatim>\<open>try\<close> block:
  the \<open>AttributeError\<close> of \<^verbatim>\<open>.get\<close> on annotations that are \<^verbatim>\<open>None\<close> and the
  \<open>ValueError\<close> of the conversion \<^verbatim>\<open>int(...)\<close> leave the function.
\<close>

definition modify_workload ::
  "NamespaceAction \<Rightarrow> workload \<Rightarrow> string \<Rightarrow>
   (string \<Rightarrow> string \<Rightarrow> patch \<Rightarrow> 'c \<Rightarrow> string option \<times> 'c) \<Rightarrow> 'c \<Rightarrow> py_error + 'c outcome" where
  "modify_workload action workload kind updater c =
     (let current_replicas = replicas workload in
      case annotations workload of
        None \<Rightarrow> Inl AttributeError
      | Some anns \<Rightarrow>
     (case (case anns updown_annotation of
              None \<Rightarrow> Some 1
            | Some s \<Rightarrow> py_int s) of
        None \<Rightarrow> Inl ValueError
      | Some before_down_replicas \<Rightarrow>
          let desired = (if action = DOWN then 0
                         else if action = UP \<and> current_replicas = 0 then before_down_replicas
                         else current_replicas);
              p0 = empty_patch;
              p1 = (if action = DOWN then
                      (if current_replicas > 0 \<or> anns updown_annotation = None
                       then p0\<lparr>metadata := Some (updown_annotation, py_str current_replicas)\<rparr>
                       else p0)
                    else p0);
              p2 = (if current_replicas \<noteq> desired then p1\<lparr>spec := Some desired\<rparr> else p1)
          in if p2 \<noteq> empty_patch then
               (case updater (name workload) (namespace workload) p2 c of
                  (None, c') \<Rightarrow>
                    Inr \<lparr>desired_replicas = desired, built_patch = p2,
                         logged = Scaled kind (namespace workload) (name workload) desired,
                         client = c'\<rparr>
                | (Some e, c') \<Rightarrow>
                    Inr \<lparr>desired_replicas = desired, built_patch = p2,
                         logged = Failed kind (namespace workload) (name workload) e,
                         client = c'\<rparr>)
             else
               Inr \<lparr>desired_replicas = desired, built_patch = p2,
                    logged = LeftIntact kind (namespace workload) (name workload) current_replicas,
                    client = c\<rparr>))"

subsection \<open>The cluster behind the patch client\<close>

text \<open>
  Modelled from the spec: the external \<^verbatim>\<open>patchWorkload(kind, name, namespace, patch)\<close> of
  section 6, which "applies a partial update to metadata annotations and/or spec replica
  count". The cluster is a store of workloads by (namespace, name); a patch merges its
  annotation into the stored annotations (into the empty dictionary when the workload
  had none) and replaces the replica count when it has one. Patching a workload that is
  not in the store raises.
\<close>

definition apply_patch :: "patch \<Rightarrow> workload \<Rightarrow> workload" where
  "apply_patch p w =
     (let w1 = (case metadata p of
                  None \<Rightarrow> w
                | Some (k, v) \<Rightarrow>
                    w\<lparr>annotations :=
                        Some ((case annotations w of None \<Rightarrow> Map.empty | Some anns \<Rightarrow> anns)
                                (k \<mapsto> v))\<rparr>)
      in case spec p of
           None \<Rightarrow> w1
         | Some n \<Rightarrow> w1\<lparr>replicas := n\<rparr>)"

type_synonym cluster = "string \<times> string \<rightharpoonup> workload"

definition cluster_updater :: "string \<Rightarrow> string \<Rightarrow> patch \<Rightarrow> cluster \<Rightarrow> string option \<times> cluster" where
  "cluster_updater nm ns p cl =
     (case cl (ns, nm) of
        None \<Rightarrow> (Some ''NotFound'', cl)
      | Some w \<Rightarrow> (None, cl((ns, nm) \<mapsto> apply_patch p w)))"

text \<open>A client that only records the calls it receives, each with its arguments.\<close>

definition recording_updater ::
  "string \<Rightarrow> string \<Rightarrow> patch \<Rightarrow> (string \<times> string \<times> patch) list \<Rightarrow>
   string option \<times> (string \<times> string \<times> patch) list" where
  "recording_updater nm ns p calls = (None, calls @ [(nm, ns, p)])"

section \<open>The batch throttler\<close>

text \<open>
  \<^verbatim>\<open>wait_on_batch_full(ns, batch_size, batch_interval)\<close> on the global dictionary
  \<^verbatim>\<open>scale_up_counters\<close>. The result says whether \<^verbatim>\<open>time.sleep\<close> was called, and with
  how many seconds, and gives the dictionary after the call.
\<close>

definition wait_on_batch_full ::
  "string \<Rightarrow> int \<Rightarrow> int \<Rightarrow> (string \<rightharpoonup> int) \<Rightarrow> int option \<times> (string \<rightharpoonup> int)" where
  "wait_on_batch_full ns batch_size batch_interval scale_up_counters =
     (let counted = (case scale_up_counters ns of None \<Rightarrow> 0 | Some n \<Rightarrow> n) + 1;
          counters1 = scale_up_counters(ns \<mapsto> counted)
      in if counted > batch_size \<and> batch_interval > 0
         then (Some batch_interval, counters1(ns \<mapsto> 1))
         else (None, counters1))"

section \<open>The world outside the module\<close>

text \<open>The argument of \<^verbatim>\<open>parse_quantity\<close>: a string of the dictionary, or the default \<open>0\<close>.\<close>

datatype quantity = QStr string | QInt int

text \<open>
  Everything the module calls and does not define, as parameters: \<^verbatim>\<open>re.compile\<close> and the
  \<^verbatim>\<open>match\<close> method of what it returns, \<^verbatim>\<open>parse_quantity\<close> (a \<^verbatim>\<open>Decimal\<close>, taken as an
  exact rational), the successive readings of \<^verbatim>\<open>time.time()\<close> (the \<open>n\<close>-th call returns
  \<open>time_at n\<close>, taken as an exact rational), and the three listing calls of the cluster
  client, each of which may raise.
\<close>

record 'r world =
  re_compile :: "string \<Rightarrow> py_error + 'r"
  re_match :: "'r \<Rightarrow> string \<Rightarrow> bool"
  parse_quantity :: "quantity \<Rightarrow> py_error + rat"
  time_at :: "nat \<Rightarrow> rat"
  list_namespace :: "py_error + string list"
  list_namespaced_deployment :: "string \<Rightarrow> py_error + workload list"
  list_namespaced_stateful_set :: "string \<Rightarrow> py_error + workload list"

section \<open>Resolving namespace patterns\<close>

text \<open>
  The loop of \<^verbatim>\<open>resolve_namespaces\<close> over the patterns; \<open>resolved\<close> is the list built
  so far, extended by the names of the listing that the compiled pattern matches.
\<close>

fun resolve_loop :: "'r world \<Rightarrow> string list \<Rightarrow> string list \<Rightarrow> string list \<Rightarrow> py_error + string list" where
  "resolve_loop W all_namespaces [] resolved = Inr resolved"
| "resolve_loop W all_namespaces (pattern # rest) resolved =
     (case re_compile W (''^'' @ pattern @ ''$'') of
        Inl e \<Rightarrow> Inl e
      | Inr compiled_pattern \<Rightarrow>
          resolve_loop W all_namespaces rest
            (resolved @ filter (re_match W compiled_pattern) all_namespaces))"

definition resolve_namespaces :: "'r world \<Rightarrow> string list \<Rightarrow> py_error + string list" where
  "resolve_namespaces W namespaces =
     (case list_namespace W of
        Inl e \<Rightarrow> Inl e
      | Inr all_namespaces \<Rightarrow> resolve_loop W all_namespaces namespaces [])"

text \<open>
  The test of lines 120 and 121 for one pattern and one name, where the pattern
  compiles: \<^verbatim>\<open>re.compile(f"^{pattern}$").match(n)\<close>. It is \<^verbatim>\<open>match\<close>, which looks for a
  match that begins at the start of the name; it is not \<^verbatim>\<open>fullmatch\<close>.
\<close>

definition anchored_match :: "'r world \<Rightarrow> string \<Rightarrow> string \<Rightarrow> bool" where
  "anchored_match W pattern n =
     (case re_compile W (''^'' @ pattern @ ''$'') of
        Inl e \<Rightarrow> False
      | Inr compiled \<Rightarrow> re_match W compiled n)"

section \<open>The state of namespaces\<close>

text \<open>
  Modelled from the spec: the class \<^verbatim>\<open>NamespaceState\<close> of
  \<^verbatim>\<open>nsscheduler.data_models.internal\<close>, which is not among the sources; section 3 of the
  specification gives it the three fields \<open>pods\<close>, \<open>cpu\<close> and \<open>memory\<close>.
\<close>

record NamespaceState =
  pods :: int
  cpu :: rat
  memory :: rat

text \<open>\<^verbatim>\<open>requests.get(key, 0)\<close>.\<close>

definition get_request :: "(string \<times> string) list \<Rightarrow> string \<Rightarrow> quantity" where
  "get_request reqs key = (case map_of reqs key of None \<Rightarrow> QInt 0 | Some s \<Rightarrow> QStr s)"

text \<open>
  The inner loop of \<^verbatim>\<open>sum\<close> over the containers of one workload with \<open>reps\<close> replicas.
  \<^verbatim>\<open>if c.resources.requests\<close> is false for \<open>None\<close> and for the empty dictionary; memory is
  parsed before cpu.
\<close>

fun sum_containers ::
  "'r world \<Rightarrow> int \<Rightarrow> container list \<Rightarrow> rat \<Rightarrow> rat \<Rightarrow> py_error + rat \<times> rat" where
  "sum_containers W reps [] cpu_acc memory_acc = Inr (cpu_acc, memory_acc)"
| "sum_containers W reps (c # cs) cpu_acc memory_acc =
     (case requests c of
        None \<Rightarrow> sum_containers W reps cs cpu_acc memory_acc
      | Some reqs \<Rightarrow>
          if reqs = [] then sum_containers W reps cs cpu_acc memory_acc
          else
            (case parse_quantity W (get_request reqs ''memory'') of
               Inl e \<Rightarrow> Inl e
             | Inr m \<Rightarrow>
                 (case parse_quantity W (get_request reqs ''cpu'') of
                    Inl e \<Rightarrow> Inl e
                  | Inr q \<Rightarrow>
                      sum_containers W reps cs (cpu_acc + q * of_int reps)
                        (memory_acc + m * of_int reps))))"

text \<open>The outer loop of \<^verbatim>\<open>sum\<close> over the workloads.\<close>

fun sum_loop ::
  "'r world \<Rightarrow> workload list \<Rightarrow> int \<Rightarrow> rat \<Rightarrow> rat \<Rightarrow> py_error + int \<times> rat \<times> rat" where
  "sum_loop W [] reps_acc cpu_acc memory_acc = Inr (reps_acc, cpu_acc, memory_acc)"
| "sum_loop W (d # ds) reps_acc cpu_acc memory_acc =
     (case sum_containers W (replicas d) (containers d) cpu_acc memory_acc of
        Inl e \<Rightarrow> Inl e
      | Inr (cpu', memory') \<Rightarrow> sum_loop W ds (reps_acc + replicas d) cpu' memory')"

text \<open>The local function \<^verbatim>\<open>sum(workloads)\<close> of \<^verbatim>\<open>get_state\<close>.\<close>

definition sum_workloads :: "'r world \<Rightarrow> workload list \<Rightarrow> py_error + int \<times> rat \<times> rat" where
  "sum_workloads W workloads = sum_loop W workloads 0 0 0"

text \<open>
  The global state that \<^verbatim>\<open>get_state\<close> reads and writes: the two cache dictionaries, how
  often the clock has been read, and the listing calls made so far, in order.
\<close>

datatype api_call = ListDeployment string | ListStatefulSet string

record globals =
  ns_state_cache :: "string \<rightharpoonup> NamespaceState"
  ns_state_cache_update_time :: "string \<rightharpoonup> rat"
  clock_reads :: nat
  listing_calls :: "api_call list"

text \<open>
  Lines 158 to 166: both listings, both sums, the new entry of \<open>state\<close> and of the two
  cache dictionaries.
\<close>

definition refresh_state ::
  "'r world \<Rightarrow> string \<Rightarrow> (string \<rightharpoonup> NamespaceState) \<Rightarrow> globals \<Rightarrow>
   py_error + (string \<rightharpoonup> NamespaceState) \<times> globals" where
  "refresh_state W ns state g =
     (case list_namespaced_deployment W ns of
        Inl e \<Rightarrow> Inl e
      | Inr deployments \<Rightarrow>
     (case list_namespaced_stateful_set W ns of
        Inl e \<Rightarrow> Inl e
      | Inr stateful_sets \<Rightarrow>
     (case sum_workloads W deployments of
        Inl e \<Rightarrow> Inl e
      | Inr (d_replicas, d_cpu, d_memory) \<Rightarrow>
     (case sum_workloads W stateful_sets of
        Inl e \<Rightarrow> Inl e
      | Inr (s_replicas, s_cpu, s_memory) \<Rightarrow>
          let st = \<lparr>pods = d_replicas + s_replicas, cpu = d_cpu + s_cpu,
                    memory = d_memory + s_memory\<rparr>
          in Inr (state(ns \<mapsto> st),
                  g\<lparr>ns_state_cache := (ns_state_cache g)(ns \<mapsto> st),
                    ns_state_cache_update_time :=
                      (ns_state_cache_update_time g)(ns \<mapsto> time_at W (clock_reads g)),
                    clock_reads := clock_reads g + 1,
                    listing_calls := listing_calls g @ [ListDeployment ns, ListStatefulSet ns]\<rparr>)))))"

text \<open>
  One turn of the loop of \<^verbatim>\<open>get_state\<close>, lines 152 to 166. The clock is read on line 153
  only when \<open>ns\<close> is in the cache; a subscript of the time dictionary that fails raises
  \<open>KeyError\<close>.
\<close>

definition get_state_ns ::
  "'r world \<Rightarrow> string \<Rightarrow> (string \<rightharpoonup> NamespaceState) \<Rightarrow> globals \<Rightarrow>
   py_error + (string \<rightharpoonup> NamespaceState) \<times> globals" where
  "get_state_ns W ns state g =
     (case ns_state_cache g ns of
        None \<Rightarrow> refresh_state W ns state g
      | Some cached \<Rightarrow>
          (case ns_state_cache_update_time g ns of
             None \<Rightarrow> Inl KeyError
           | Some t \<Rightarrow>
               if t + 3 > time_at W (clock_reads g)
               then Inr (state(ns \<mapsto> cached), g\<lparr>clock_reads := clock_reads g + 1\<rparr>)
               else refresh_state W ns state (g\<lparr>clock_reads := clock_reads g + 1\<rparr>)))"

fun get_state_loop ::
  "'r world \<Rightarrow> string list \<Rightarrow> (string \<rightharpoonup> NamespaceState) \<Rightarrow> globals \<Rightarrow>
   py_error + (string \<rightharpoonup> NamespaceState) \<times> globals" where
  "get_state_loop W [] state g = Inr (state, g)"
| "get_state_loop W (ns # rest) state g =
     (case get_state_ns W ns state g of
        Inl e \<Rightarrow> Inl e
      | Inr (state', g') \<Rightarrow> get_state_loop W rest state' g')"

text \<open>\<^verbatim>\<open>get_state(namespaces)\<close>: the returned dictionary and the globals after the call.\<close>

definition get_state ::
  "'r world \<Rightarrow> string list \<Rightarrow> globals \<Rightarrow> py_error + (string \<rightharpoonup> NamespaceState) \<times> globals" where
  "get_state W namespaces g =
     (case resolve_namespaces W namespaces of
        Inl e \<Rightarrow> Inl e
      | Inr resolved \<Rightarrow> get_state_loop W resolved Map.empty g)"

section \<open>Two library functions on a fragment of their inputs\<close>

subsection \<open>Regular expressions\<close>

text \<open>
  Python's \<^verbatim>\<open>re\<close> for patterns built from ordinary characters, \<^verbatim>\<open>.\<close>, \<^verbatim>\<open>^\<close>, \<^verbatim>\<open>$\<close>, a
  postfix \<^verbatim>\<open>*\<close> and \<^verbatim>\<open>|\<close>, without flags. A pattern is a list of alternatives, each a
  sequence of items.
\<close>

datatype re_atom = AChar char | ADot | ABol | AEol

datatype re_item = One re_atom | Star re_atom

definition re_outside :: "char \<Rightarrow> bool" where
  "re_outside c = (c \<in> set ''+?{}[]()'' \<or> c = CHR 0x5C)"

definition atom_of :: "char \<Rightarrow> re_atom" where
  "atom_of c = (if c = CHR ''.'' then ADot else if c = CHR ''^'' then ABol
                else if c = CHR ''$'' then AEol else AChar c)"

definition is_anchor :: "re_atom \<Rightarrow> bool" where
  "is_anchor a = (a = ABol \<or> a = AEol)"

text \<open>
  One alternative. A \<^verbatim>\<open>*\<close> with nothing before it, after an anchor or after another
  \<^verbatim>\<open>*\<close> is \<^verbatim>\<open>re.error\<close> ("nothing to repeat", "multiple repeat").
\<close>

fun parse_branch :: "string \<Rightarrow> py_error + re_item list" where
  "parse_branch [] = Inr []"
| "parse_branch [c] =
     (if c = CHR ''*'' then Inl ReError
      else if re_outside c then Inl Unmodelled
      else Inr [One (atom_of c)])"
| "parse_branch (c # d # cs) =
     (if c = CHR ''*'' then Inl ReError
      else if re_outside c then Inl Unmodelled
      else if d = CHR ''*'' then
        (if is_anchor (atom_of c) then Inl ReError
         else (case parse_branch cs of
                 Inl e \<Rightarrow> Inl e
               | Inr items \<Rightarrow> Inr (Star (atom_of c) # items)))
      else (case parse_branch (d # cs) of
              Inl e \<Rightarrow> Inl e
            | Inr items \<Rightarrow> Inr (One (atom_of c) # items)))"

fun split_alternatives :: "string \<Rightarrow> string list" where
  "split_alternatives [] = [[]]"
| "split_alternatives (c # cs) =
     (if c = CHR ''|'' then [] # split_alternatives cs
      else (case split_alternatives cs of
              [] \<Rightarrow> [[c]]
            | b # bs \<Rightarrow> (c # b) # bs))"

fun parse_branches :: "string list \<Rightarrow> py_error + re_item list list" where
  "parse_branches [] = Inr []"
| "parse_branches (b # bs) =
     (case parse_branch b of
        Inl e \<Rightarrow> Inl e
      | Inr items \<Rightarrow>
          (case parse_branches bs of
             Inl e \<Rightarrow> Inl e
           | Inr r \<Rightarrow> Inr (items # r)))"

definition py_re_compile :: "string \<Rightarrow> py_error + re_item list list" where
  "py_re_compile s = parse_branches (split_alternatives s)"

fun atom_accepts :: "re_atom \<Rightarrow> char \<Rightarrow> bool" where
  "atom_accepts (AChar c) x = (x = c)"
| "atom_accepts ADot x = (x \<noteq> CHR 0x0A)"
| "atom_accepts ABol x = False"
| "atom_accepts AEol x = False"

text \<open>
  Whether the items match a prefix of the rest \<open>s\<close> of the subject; \<open>at_start\<close> says that
  nothing of the subject has been consumed. \<^verbatim>\<open>$\<close> holds at the end of the subject and
  before a line feed that ends it; \<^verbatim>\<open>.\<close> takes any character but a line feed.
\<close>

fun match_items :: "re_item list \<Rightarrow> bool \<Rightarrow> string \<Rightarrow> bool" where
  "match_items [] at_start s = True"
| "match_items (One ABol # r) at_start s = (at_start \<and> match_items r at_start s)"
| "match_items (One AEol # r) at_start s = ((s = [] \<or> s = [CHR 0x0A]) \<and> match_items r at_start s)"
| "match_items (One a # r) at_start [] = False"
| "match_items (One a # r) at_start (x # xs) = (atom_accepts a x \<and> match_items r False xs)"
| "match_items (Star a # r) at_start [] = match_items r at_start []"
| "match_items (Star a # r) at_start (x # xs) =
     (match_items r at_start (x # xs) \<or> (atom_accepts a x \<and> match_items (Star a # r) False xs))"

text \<open>\<^verbatim>\<open>compiled.match(s)\<close> as a truth value: some alternative matches at position 0.\<close>

definition py_re_match :: "re_item list list \<Rightarrow> string \<Rightarrow> bool" where
  "py_re_match r s = list_ex (\<lambda>items. match_items items True s) r"



subsection \<open>Quantities\<close>

text \<open>
  \<^verbatim>\<open>Decimal(s)\<close> for an unsigned decimal numeral with an optional fraction; \<open>None\<close> for
  every other string.
\<close>

definition py_decimal :: "string \<Rightarrow> rat option" where
  "py_decimal s =
     (let ip = takeWhile (\<lambda>c. c \<noteq> CHR ''.'') s;
          fp = drop (Suc (length ip)) s
      in if ip = [] \<or> \<not> list_all is_digit ip \<or> \<not> list_all is_digit fp
            \<or> (fp = [] \<and> length ip < length s)
         then None
         else (case (digits_acc 0 ip, digits_acc 0 fp) of
                 (Some i, Some f) \<Rightarrow> Some (of_nat i + of_nat f / 10 ^ length fp)
               | _ \<Rightarrow> None))"

definition exponents :: "(char \<times> int) list" where
  "exponents = [(CHR ''n'', -3), (CHR ''u'', -2), (CHR ''m'', -1), (CHR ''K'', 1), (CHR ''k'', 1),
                (CHR ''M'', 2), (CHR ''G'', 3), (CHR ''T'', 4), (CHR ''P'', 5), (CHR ''E'', 6)]"

text \<open>
  \<^verbatim>\<open>kubernetes.utils.quantity.parse_quantity\<close>: a number passes through; of a string
  the suffix (one letter of \<open>exponents\<close>, or such a letter and \<^verbatim>\<open>i\<close>) is split off, the
  rest is read as a decimal and scaled by a power of 1000, or of 1024 for a suffix
  ending in \<^verbatim>\<open>i\<close>.
\<close>

definition py_parse_quantity :: "quantity \<Rightarrow> py_error + rat" where
  "py_parse_quantity q =
     (case q of
        QInt n \<Rightarrow> Inr (of_int n)
      | QStr s \<Rightarrow>
          let (number, suffix) =
                (if length s \<ge> 2 \<and> last s = CHR ''i'' then
                   (if map_of exponents (last (butlast s)) \<noteq> None
                    then (butlast (butlast s), [last (butlast s), last s])
                    else (s, []))
                 else if length s \<ge> 1 \<and> map_of exponents (last s) \<noteq> None
                 then (butlast s, [last s])
                 else (s, []))
          in (case py_decimal number of
                None \<Rightarrow> Inl Unmodelled
              | Some num \<Rightarrow>
                  if suffix = [] then Inr num
                  else if suffix = ''ki'' then Inl ValueError
                  else
                    (case map_of exponents (hd suffix) of
                       None \<Rightarrow> Inl ValueError
                     | Some e \<Rightarrow>
                         let base = (if last suffix = CHR ''i'' then 1024 else 1000 :: rat)
                         in Inr (if e \<ge> 0 then num * base ^ nat e
                                 else num / base ^ nat (- e)))))"

section \<open>Example inputs\<close>

text \<open>A workload \<^verbatim>\<open>ns1/web\<close> without containers, with the given replicas and annotations.\<close>

definition demo_workload :: "int \<Rightarrow> (string \<rightharpoonup> string) option \<Rightarrow> workload" where
  "demo_workload n anns =
     \<lparr>name = ''web'', namespace = ''ns1'', annotations = anns, replicas = n, containers = []\<rparr>"

text \<open>
  The namespace \<^verbatim>\<open>ns1\<close> of the examples: one Deployment of 3 replicas whose only
  container requests \<^verbatim>\<open>cpu=500m\<close> and \<^verbatim>\<open>memory=256Mi\<close>, and no StatefulSet.
\<close>

definition demo_deployment :: workload where
  "demo_deployment =
     \<lparr>name = ''web'', namespace = ''ns1'', annotations = None, replicas = 3,
      containers = [\<lparr>requests = Some [(''cpu'', ''500m''), (''memory'', ''256Mi'')]\<rparr>]\<rparr>"

text \<open>
  A world with the namespaces \<^verbatim>\<open>team-a-dev\<close>, \<^verbatim>\<open>team-a-prod\<close>, \<^verbatim>\<open>team-b\<close>, in this
  order, the two library models, the same listing in every namespace, and a clock that
  reads 100, then 101, then 105 seconds.
\<close>

text \<open>The state of a namespace that holds \<open>demo_deployment\<close> only.\<close>

definition demo_state :: NamespaceState where
  "demo_state = \<lparr>pods = 3, cpu = 3 / 2, memory = 805306368\<rparr>"

text \<open>
  Globals in which \<^verbatim>\<open>team-b\<close> was cached at second 100, after \<open>n\<close> readings of the
  clock and the listing calls \<open>calls\<close>.
\<close>

definition demo_globals :: "nat \<Rightarrow> api_call list \<Rightarrow> globals" where
  "demo_globals n calls =
     \<lparr>ns_state_cache = [''team-b'' \<mapsto> demo_state],
      ns_state_cache_update_time = [''team-b'' \<mapsto> 100],
      clock_reads = n, listing_calls = calls\<rparr>"

text \<open>The globals of a fresh process.\<close>

definition initial_globals :: globals where
  "initial_globals =
     \<lparr>ns_state_cache = Map.empty, ns_state_cache_update_time = Map.empty,
      clock_reads = 0, listing_calls = []\<rparr>"

definition demo_world :: "re_item list list world" where
  "demo_world =
     \<lparr>re_compile = py_re_compile, re_match = py_re_match,
      parse_quantity = py_parse_quantity,
      time_at = (\<lambda>n. if n = 0 then 100 else if n = 1 then 101 else 105),
      list_namespace = Inr [''team-a-dev'', ''team-a-prod'', ''team-b''],
      list_namespaced_deployment = (\<lambda>ns. Inr [demo_deployment\<lparr>namespace := ns\<rparr>]),
      list_namespaced_stateful_set = (\<lambda>ns. Inr [])\<rparr>"


section \<open>What the specification says, in its own words\<close>



text \<open>
  Section 4.4: the quantity a container requests under a key, parsed; an absent
  request counts as zero.
\<close>

definition requested :: "'r world \<Rightarrow> container \<Rightarrow> string \<Rightarrow> rat" where
  "requested W c key =
     (case requests c of
        None \<Rightarrow> 0
      | Some reqs \<Rightarrow>
          (case map_of reqs key of
             None \<Rightarrow> 0
           | Some s \<Rightarrow> (case parse_quantity W (QStr s) of Inl e \<Rightarrow> 0 | Inr q \<Rightarrow> q)))"

text \<open>Section 4.4: the sum of the replicas of the workloads.\<close>

definition total_pods :: "workload list \<Rightarrow> int" where
  "total_pods ws = sum_list (map replicas ws)"

text \<open>
  Section 4.4: the sum, over every container of every workload, of the requested
  quantity times the replicas of that workload.
\<close>

definition total_request :: "'r world \<Rightarrow> string \<Rightarrow> workload list \<Rightarrow> rat" where
  "total_request W key ws =
     sum_list (map (\<lambda>w. sum_list (map (\<lambda>c. requested W c key * of_int (replicas w))
                                       (containers w))) ws)"

text \<open>Every request of the container for memory or cpu is a string that parses.\<close>

definition container_parses :: "'r world \<Rightarrow> container \<Rightarrow> bool" where
  "container_parses W c =
     (case requests c of
        None \<Rightarrow> True
      | Some reqs \<Rightarrow>
          list_all (\<lambda>key. case map_of reqs key of
                            None \<Rightarrow> True
                          | Some s \<Rightarrow> \<not> isl (parse_quantity W (QStr s)))
            [''memory'', ''cpu''])"

definition requests_parse :: "'r world \<Rightarrow> workload list \<Rightarrow> bool" where
  "requests_parse W ws = list_all (\<lambda>w. list_all (container_parses W) (containers w)) ws"

text \<open>The state that section 4.4 describes for the listed workloads.\<close>

definition aggregated :: "'r world \<Rightarrow> workload list \<Rightarrow> NamespaceState" where
  "aggregated W ws =
     \<lparr>pods = total_pods ws, cpu = total_request W ''cpu'' ws,
      memory = total_request W ''memory'' ws\<rparr>"

section \<open>Properties of the conversions between integers and strings\<close>

lemma is_digit_digit_char: "d < 10 \<Longrightarrow> is_digit (digit_char d)"
  by (simp add: is_digit_def digit_char_def)

lemma digit_val_digit_char: "d < 10 \<Longrightarrow> digit_val (digit_char d) = d"
  by (simp add: digit_val_def digit_char_def)

lemma is_digit_not_space: "is_digit c \<Longrightarrow> \<not> is_space c"
  by (auto simp: is_digit_def is_space_def)

lemma is_digit_not_sign: "is_digit c \<Longrightarrow> c \<noteq> CHR ''-'' \<and> c \<noteq> CHR ''+'' \<and> c \<noteq> CHR ''_''"
  by (auto simp: is_digit_def)

lemma str_nat_digits: "list_all is_digit (str_nat n)"
  by (induction n rule: str_nat.induct) (subst str_nat.simps, simp add: is_digit_digit_char)

lemma str_nat_nonempty: "str_nat n \<noteq> []"
  by (subst str_nat.simps) simp

lemma digits_acc_snoc:
  "list_all is_digit xs \<Longrightarrow> is_digit c \<Longrightarrow>
   digits_acc a (xs @ [c]) = map_option (\<lambda>v. v * 10 + digit_val c) (digits_acc a xs)"
  by (induction xs arbitrary: a) simp_all

lemma digits_acc_str_nat: "digits_acc 0 (str_nat n) = Some n"
proof (induction n rule: str_nat.induct)
  case (1 n)
  show ?case
  proof (cases "n < 10")
    case True
    then show ?thesis
      by (subst str_nat.simps) (simp add: is_digit_digit_char digit_val_digit_char)
  next
    case False
    then have ih: "digits_acc 0 (str_nat (n div 10)) = Some (n div 10)"
      using "1" by simp
    have "digits_acc 0 (str_nat (n div 10) @ [digit_char (n mod 10)]) =
          Some (n div 10 * 10 + n mod 10)"
      by (simp add: digits_acc_snoc str_nat_digits is_digit_digit_char ih digit_val_digit_char)
    with False show ?thesis
      by (subst str_nat.simps) simp
  qed
qed

lemma digits_value_str_nat: "digits_value (str_nat n) = Some n"
proof -
  obtain c cs where s: "str_nat n = c # cs"
    using str_nat_nonempty [of n] by (cases "str_nat n") auto
  have "is_digit c"
    using str_nat_digits [of n] s by simp
  then show ?thesis
    using digits_acc_str_nat [of n] s by (simp add: digits_value_def)
qed

lemma strip_no_space:
  assumes "s \<noteq> []" "\<not> is_space (hd s)" "\<not> is_space (last s)"
  shows "strip s = s"
proof -
  have a: "dropWhile is_space s = s"
    using assms by (cases s) auto
  have "rev s \<noteq> []" "\<not> is_space (hd (rev s))"
    using assms by (simp_all add: hd_rev)
  then have "dropWhile is_space (rev s) = rev s"
    by (cases "rev s") auto
  with a show ?thesis
    by (simp add: strip_def)
qed

lemma strip_str_nat: "strip (str_nat n) = str_nat n"
proof -
  have "is_digit (hd (str_nat n))" "is_digit (last (str_nat n))"
    using str_nat_digits [of n] str_nat_nonempty [of n]
    by (auto simp: list_all_iff)
  then show ?thesis
    by (intro strip_no_space) (auto simp: str_nat_nonempty is_digit_not_space)
qed

lemma strip_minus_str_nat: "strip (CHR ''-'' # str_nat n) = CHR ''-'' # str_nat n"
proof -
  have "is_digit (last (str_nat n))"
    using str_nat_digits [of n] str_nat_nonempty [of n]
    by (auto simp: list_all_iff)
  then have "\<not> is_space (last (CHR ''-'' # str_nat n))"
    by (simp add: str_nat_nonempty is_digit_not_space)
  moreover have "\<not> is_space (CHR ''-'')"
    by (simp add: is_space_def)
  ultimately show ?thesis
    by (intro strip_no_space) simp_all
qed

lemma py_int_py_str: "py_int (py_str n) = Some n"
proof (cases "n < 0")
  case True
  then show ?thesis
    by (simp add: py_int_def py_str_def strip_minus_str_nat digits_value_str_nat)
next
  case False
  obtain c cs where s: "str_nat (nat n) = c # cs"
    using str_nat_nonempty [of "nat n"] by (cases "str_nat (nat n)") auto
  have "is_digit c"
    using str_nat_digits [of "nat n"] s by simp
  then have "c \<noteq> CHR ''-''" "c \<noteq> CHR ''+''"
    using is_digit_not_sign by blast+
  moreover have "strip (c # cs) = c # cs" "digits_value (c # cs) = Some (nat n)"
    using strip_str_nat [of "nat n"] digits_value_str_nat [of "nat n"] s by simp_all
  ultimately show ?thesis
    using False s by (simp add: py_int_def py_str_def)
qed

lemma py_str_0: "py_str 0 = ''0''"
  by code_simp

lemma py_str_zero_iff: "py_str n = ''0'' \<longleftrightarrow> n = 0"
proof
  assume "py_str n = ''0''"
  then have "py_int (py_str n) = py_int ''0''" by simp
  moreover have "py_int ''0'' = Some 0" by code_simp
  ultimately show "n = 0" by (simp add: py_int_py_str)
next
  assume "n = 0"
  then show "py_str n = ''0''"
    by (simp add: py_str_0)
qed

lemma py_int_0: "py_int ''0'' = Some 0"
  by code_simp

lemma py_int_abc: "py_int ''abc'' = None"
  by code_simp


lemma py_int_3: "py_int ''3'' = Some 3"
  by code_simp

section \<open>The scale transition\<close>




text \<open>
  C2 as stated fails: UP on a stopped workload whose saved-replicas annotation is
  \<^verbatim>\<open>abc\<close> does not fall back to 1, it raises \<open>ValueError\<close>.
\<close>

theorem malformed_annotation_counterexample:
  "modify_workload UP (demo_workload 0 (Some [updown_annotation \<mapsto> ''abc''])) ''Deployment''
     recording_updater [] = Inl ValueError"
  by (simp add: modify_workload_def demo_workload_def py_int_abc)

text \<open>
  C2, as the code has it: the conversion \<^verbatim>\<open>int(...)\<close> of line 174 is not guarded. A
  saved-replicas annotation that is present and is no integer literal makes the
  transition raise \<open>ValueError\<close>, for either action, before a patch is built or the
  client is called. On a stopped workload UP takes the desired count 1 only when the
  annotations are a dictionary without the key; a present, well-formed annotation gives
  its integer.
\<close>

theorem up_saved_replicas_cases:
  "(annotations w = Some anns \<and> anns updown_annotation = Some s \<and> py_int s = None \<longrightarrow>
      modify_workload action w kind updater c = Inl ValueError) \<and>
   (annotations w = Some anns \<and> anns updown_annotation = None \<and> replicas w = 0 \<longrightarrow>
      (\<exists>r. modify_workload UP w kind updater c = Inr r \<and> desired_replicas r = 1)) \<and>
   (annotations w = Some anns \<and> anns updown_annotation = Some s \<and> py_int s = Some n \<and>
    replicas w = 0 \<longrightarrow>
      (\<exists>r. modify_workload UP w kind updater c = Inr r \<and> desired_replicas r = n))"
  by (auto simp: modify_workload_def Let_def empty_patch_def split: prod.splits option.splits)

theorem up_saved_replicas_cases_witness:
  "modify_workload DOWN (demo_workload 2 (Some [updown_annotation \<mapsto> ''abc''])) ''Deployment''
     recording_updater [] = Inl ValueError \<and>
   (\<exists>r. modify_workload UP (demo_workload 0 (Some Map.empty)) ''Deployment'' recording_updater []
          = Inr r \<and> desired_replicas r = 1) \<and>
   (\<exists>r. modify_workload UP (demo_workload 0 (Some [updown_annotation \<mapsto> ''3''])) ''Deployment''
          recording_updater [] = Inr r \<and> desired_replicas r = 3)"
  using up_saved_replicas_cases [of "demo_workload 2 (Some [updown_annotation \<mapsto> ''abc''])"
      "[updown_annotation \<mapsto> ''abc'']" "''abc''" DOWN "''Deployment''" recording_updater "[]" 0]
    up_saved_replicas_cases [of "demo_workload 0 (Some Map.empty)" Map.empty "''abc''"
      DOWN "''Deployment''" recording_updater "[]" 0]
    up_saved_replicas_cases [of "demo_workload 0 (Some [updown_annotation \<mapsto> ''3''])"
      "[updown_annotation \<mapsto> ''3'']" "''3''" DOWN "''Deployment''" recording_updater "[]" 3]
  by (simp add: demo_workload_def py_int_abc py_int_3)

text \<open>
  C4: a workload whose saved-replicas annotation holds a non-zero integer. DOWN returns;
  it builds the annotation patch exactly when the current replicas are positive, and
  then with the decimal string of that positive count, never with \<open>"0"\<close>. A DOWN on the
  stopped workload builds the empty patch and does not call the client. In the cluster
  the stored value is afterwards not \<open>"0"\<close>, and it is the old value when the workload
  was already stopped.
\<close>

theorem down_keeps_saved_annotation:
  assumes "annotations w = Some anns" and "anns updown_annotation = Some v"
    and "py_int v = Some n" and "n \<noteq> 0"
  shows "(\<exists>r. modify_workload DOWN w kind updater c = Inr r \<and>
              ((metadata (built_patch r) \<noteq> None) = (replicas w > 0)) \<and>
              (replicas w > 0 \<longrightarrow>
                 metadata (built_patch r) = Some (updown_annotation, py_str (replicas w))) \<and>
              metadata (built_patch r) \<noteq> Some (updown_annotation, ''0'') \<and>
              (replicas w = 0 \<longrightarrow> built_patch r = empty_patch \<and> client r = c)) \<and>
         (cl (namespace w, name w) = Some w \<longrightarrow>
            (\<exists>r w' anns'. modify_workload DOWN w kind cluster_updater cl = Inr r \<and>
                client r (namespace w, name w) = Some w' \<and>
                annotations w' = Some anns' \<and>
                anns' updown_annotation \<noteq> Some ''0'' \<and>
                (replicas w = 0 \<longrightarrow> anns' updown_annotation = Some v)))"
proof -
  have v0: "v \<noteq> ''0''"
    using assms py_int_0 by auto
  have s0: "replicas w > 0 \<Longrightarrow> py_str (replicas w) \<noteq> ''0''"
    by (simp add: py_str_zero_iff)
  show ?thesis
    using assms v0 s0
    by (auto simp: modify_workload_def Let_def empty_patch_def cluster_updater_def
        apply_patch_def split: prod.splits option.splits)
qed

theorem down_keeps_saved_annotation_witness:
  "(\<exists>r. modify_workload DOWN (demo_workload 0 (Some [updown_annotation \<mapsto> ''3''])) ''Deployment''
          recording_updater [] = Inr r \<and>
        built_patch r = empty_patch \<and> client r = []) \<and>
   (\<exists>r w' anns'.
        modify_workload DOWN (demo_workload 0 (Some [updown_annotation \<mapsto> ''3''])) ''Deployment''
          cluster_updater
          [(''ns1'', ''web'') \<mapsto> demo_workload 0 (Some [updown_annotation \<mapsto> ''3''])] = Inr r \<and>
        client r (''ns1'', ''web'') = Some w' \<and> annotations w' = Some anns' \<and>
        anns' updown_annotation = Some ''3'')"
  using down_keeps_saved_annotation [of "demo_workload 0 (Some [updown_annotation \<mapsto> ''3''])"
      "[updown_annotation \<mapsto> ''3'']" "''3''" 3
      "''Deployment''" recording_updater "[]"
      "[(''ns1'', ''web'') \<mapsto> demo_workload 0 (Some [updown_annotation \<mapsto> ''3''])]"]
  by (simp add: demo_workload_def py_int_3, blast)




text \<open>
  C6 as stated fails for a running workload whose saved-replicas annotation is
  \<^verbatim>\<open>abc\<close>: UP computes no desired count and no patch, it raises \<open>ValueError\<close>.
\<close>

theorem up_running_counterexample:
  "modify_workload UP (demo_workload 3 (Some [updown_annotation \<mapsto> ''abc''])) ''Deployment''
     recording_updater [] = Inl ValueError"
  by (simp add: modify_workload_def demo_workload_def py_int_abc)

text \<open>
  C6, as the code has it: a workload with positive replicas whose annotations are a
  dictionary in which the saved-replicas key is absent or holds an integer literal. UP
  returns with the desired replicas equal to the current ones and the empty patch; it
  logs that the workload was left intact and does not call the client, whose state is
  the one it had.
\<close>

theorem up_running_is_noop:
  assumes "replicas w > 0"
    and "annotations w = Some anns"
    and "anns updown_annotation = None \<or>
         (\<exists>s n. anns updown_annotation = Some s \<and> py_int s = Some n)"
  shows "\<exists>r. modify_workload UP w kind updater c = Inr r \<and>
             desired_replicas r = replicas w \<and> built_patch r = empty_patch \<and>
             logged r = LeftIntact kind (namespace w) (name w) (replicas w) \<and>
             client r = c"
  using assms
  by (auto simp: modify_workload_def Let_def empty_patch_def)

theorem up_running_is_noop_witness:
  "\<exists>r. modify_workload UP (demo_workload 3 (Some [updown_annotation \<mapsto> ''3''])) ''Deployment''
         recording_updater [] = Inr r \<and>
       desired_replicas r = 3 \<and> built_patch r = empty_patch \<and>
       logged r = LeftIntact ''Deployment'' ''ns1'' ''web'' 3 \<and> client r = []"
  using up_running_is_noop [of "demo_workload 3 (Some [updown_annotation \<mapsto> ''3''])"
      "[updown_annotation \<mapsto> ''3'']" "''Deployment''" recording_updater "[]"]
  by (simp add: demo_workload_def py_int_3)

text \<open>
  C10: UP never builds a metadata patch. A call of UP either raises on line 174, before
  any patch (\<open>AttributeError\<close> when the annotations are \<^verbatim>\<open>None\<close>, \<open>ValueError\<close> at the
  conversion of the annotation), or returns with a patch that has no metadata entry. In
  the cluster the annotations of the stored workload after a UP that returns are the
  ones before it, also when UP restores a stopped workload.
\<close>

theorem up_leaves_annotation:
  "((annotations w = None \<and> modify_workload UP w kind updater c = Inl AttributeError) \<or>
    (\<exists>anns s. annotations w = Some anns \<and> anns updown_annotation = Some s \<and>
         py_int s = None \<and> modify_workload UP w kind updater c = Inl ValueError) \<or>
    (\<exists>r. modify_workload UP w kind updater c = Inr r \<and> metadata (built_patch r) = None)) \<and>
   (cl (namespace w, name w) = Some w \<longrightarrow>
      (\<forall>r. modify_workload UP w kind cluster_updater cl = Inr r \<longrightarrow>
         (\<exists>w'. client r (namespace w, name w) = Some w' \<and> annotations w' = annotations w)))"
  by (auto simp: modify_workload_def Let_def empty_patch_def cluster_updater_def apply_patch_def
      split: prod.splits option.splits)

theorem up_leaves_annotation_witness:
  "\<exists>r w'. modify_workload UP (demo_workload 0 (Some [updown_annotation \<mapsto> ''3''])) ''Deployment''
       cluster_updater
       [(''ns1'', ''web'') \<mapsto> demo_workload 0 (Some [updown_annotation \<mapsto> ''3''])] = Inr r \<and>
     metadata (built_patch r) = None \<and> spec (built_patch r) = Some 3 \<and>
     client r (''ns1'', ''web'') = Some w' \<and> replicas w' = 3 \<and>
     annotations w' = Some [updown_annotation \<mapsto> ''3'']"
  using up_leaves_annotation [of "demo_workload 0 (Some [updown_annotation \<mapsto> ''3''])"
      "''Deployment''" cluster_updater
      "[(''ns1'', ''web'') \<mapsto> demo_workload 0 (Some [updown_annotation \<mapsto> ''3''])]"
      "[(''ns1'', ''web'') \<mapsto> demo_workload 0 (Some [updown_annotation \<mapsto> ''3''])]"]
  by (simp add: demo_workload_def py_int_3 modify_workload_def Let_def empty_patch_def
      cluster_updater_def apply_patch_def)

section \<open>The batch throttler\<close>

lemma interval_zero_never_pauses:
  "fst (wait_on_batch_full ns batch_size 0 counters) = None"
  by (simp add: wait_on_batch_full_def Let_def)

text \<open>
  C3 at \<^verbatim>\<open>batch_size = 0\<close>, \<^verbatim>\<open>batch_interval = 5\<close>, with no counter yet: the first call
  counts 1, which exceeds 0, and sleeps 5 seconds; the counter is set back to 1, and the
  next call counts 2 and sleeps again.
\<close>

theorem batch_size_zero_pauses:
  "fst (wait_on_batch_full ''ns1'' 0 5 Map.empty) = Some 5 \<and>
   snd (wait_on_batch_full ''ns1'' 0 5 Map.empty) ''ns1'' = Some 1 \<and>
   fst (wait_on_batch_full ''ns1'' 0 5 (snd (wait_on_batch_full ''ns1'' 0 5 Map.empty))) = Some 5"
  by (simp add: wait_on_batch_full_def Let_def)

section \<open>Resolving namespace patterns\<close>


















text \<open>
  The anchored pattern is matched at the start of the name, as \<^verbatim>\<open>match\<close> does: with an
  alternation the anchors bind to the first and the last alternative only.
\<close>

lemma anchored_alternation:
  "map (anchored_match demo_world ''a|b'') [''ab'', ''b'', ''xb''] = [True, True, False]"
  by code_simp

section \<open>Aggregating the state of a namespace\<close>

lemma container_request:
  assumes "parse_quantity W (QInt 0) = Inr 0"
    and "requests c = Some reqs" and "container_parses W c"
    and "key = ''memory'' \<or> key = ''cpu''"
  shows "parse_quantity W (get_request reqs key) = Inr (requested W c key)"
proof (cases "map_of reqs key")
  case None
  with assms show ?thesis
    by (simp add: get_request_def requested_def)
next
  case (Some s)
  with assms have "\<not> isl (parse_quantity W (QStr s))"
    by (auto simp: container_parses_def)
  then obtain q where "parse_quantity W (QStr s) = Inr q"
    by (cases "parse_quantity W (QStr s)") auto
  with Some assms show ?thesis
    by (simp add: get_request_def requested_def)
qed

lemma requested_no_requests:
  "requests c = None \<or> requests c = Some [] \<Longrightarrow> requested W c key = 0"
  by (auto simp: requested_def)

lemma sum_containers_spec:
  assumes "parse_quantity W (QInt 0) = Inr 0"
    and "list_all (container_parses W) cs"
  shows "sum_containers W reps cs cpu_acc memory_acc =
         Inr (cpu_acc + sum_list (map (\<lambda>c. requested W c ''cpu'' * of_int reps) cs),
              memory_acc + sum_list (map (\<lambda>c. requested W c ''memory'' * of_int reps) cs))"
  using assms(2)
proof (induction cs arbitrary: cpu_acc memory_acc)
  case Nil
  then show ?case by simp
next
  case (Cons c cs)
  then have ih: "\<And>a b. sum_containers W reps cs a b =
         Inr (a + sum_list (map (\<lambda>c. requested W c ''cpu'' * of_int reps) cs),
              b + sum_list (map (\<lambda>c. requested W c ''memory'' * of_int reps) cs))"
    by simp
  show ?case
  proof (cases "requests c = None \<or> requests c = Some []")
    case True
    then show ?thesis
      using ih by (auto simp: requested_no_requests)
  next
    case False
    then obtain reqs where reqs: "requests c = Some reqs" "reqs \<noteq> []"
      by auto
    have c: "container_parses W c"
      using Cons.prems by simp
    have "parse_quantity W (get_request reqs ''memory'') = Inr (requested W c ''memory'')"
      and "parse_quantity W (get_request reqs ''cpu'') = Inr (requested W c ''cpu'')"
      using container_request [OF assms(1) reqs(1) c] by simp_all
    then show ?thesis
      using reqs ih by (simp add: add.assoc)
  qed
qed

lemma sum_loop_spec:
  assumes "parse_quantity W (QInt 0) = Inr 0" and "requests_parse W ws"
  shows "sum_loop W ws reps_acc cpu_acc memory_acc =
         Inr (reps_acc + total_pods ws, cpu_acc + total_request W ''cpu'' ws,
              memory_acc + total_request W ''memory'' ws)"
  using assms(2)
proof (induction ws arbitrary: reps_acc cpu_acc memory_acc)
  case Nil
  then show ?case by (simp add: total_pods_def total_request_def)
next
  case (Cons w ws)
  then have "list_all (container_parses W) (containers w)" and "requests_parse W ws"
    by (simp_all add: requests_parse_def)
  then show ?case
    using Cons.IH sum_containers_spec [OF assms(1)]
    by (simp add: total_pods_def total_request_def add.assoc)
qed

lemma sum_workloads_spec:
  assumes "parse_quantity W (QInt 0) = Inr 0" and "requests_parse W ws"
  shows "sum_workloads W ws =
         Inr (total_pods ws, total_request W ''cpu'' ws, total_request W ''memory'' ws)"
  using sum_loop_spec [OF assms] by (simp add: sum_workloads_def)

lemma aggregated_append:
  "\<lparr>pods = total_pods ds + total_pods ss,
    cpu = total_request W ''cpu'' ds + total_request W ''cpu'' ss,
    memory = total_request W ''memory'' ds + total_request W ''memory'' ss\<rparr> =
   aggregated W (ds @ ss)"
  by (simp add: aggregated_def total_pods_def total_request_def)

text \<open>
  C9: when \<^verbatim>\<open>parse_quantity(0)\<close> is zero, both listings return and every request for cpu
  or memory parses, the sum over workloads is (the sum of the replicas, the sum over
  the containers of the parsed cpu request times the replicas of the workload, the same
  for memory), with an absent request counting as zero; and the state computed for the
  namespace and stored in the cache is that sum over the Deployments and the
  StatefulSets together.
\<close>

theorem aggregated_state:
  assumes "parse_quantity W (QInt 0) = Inr 0"
    and "list_namespaced_deployment W ns = Inr ds"
    and "list_namespaced_stateful_set W ns = Inr ss"
    and "requests_parse W (ds @ ss)"
  shows "sum_workloads W ds =
           Inr (total_pods ds, total_request W ''cpu'' ds, total_request W ''memory'' ds) \<and>
         (\<exists>g'. refresh_state W ns state g = Inr (state(ns \<mapsto> aggregated W (ds @ ss)), g') \<and>
               ns_state_cache g' ns = Some (aggregated W (ds @ ss)))"
proof -
  have p: "requests_parse W ds" "requests_parse W ss"
    using assms(4) by (simp_all add: requests_parse_def)
  show ?thesis
    using assms(2,3) sum_workloads_spec [OF assms(1) p(1)] sum_workloads_spec [OF assms(1) p(2)]
    by (simp add: refresh_state_def aggregated_append Let_def)
qed

lemma parse_500m: "py_parse_quantity (QStr ''500m'') = Inr (1 / 2)"
  by code_simp

lemma parse_256Mi: "py_parse_quantity (QStr ''256Mi'') = Inr 268435456"
  by code_simp

lemma parse_int_0: "py_parse_quantity (QInt 0) = Inr 0"
  by (simp add: py_parse_quantity_def)

lemma demo_requests_parse: "requests_parse demo_world ([demo_deployment\<lparr>namespace := ns\<rparr>] @ [])"
  by (simp add: requests_parse_def container_parses_def demo_deployment_def demo_world_def
      parse_500m parse_256Mi)

lemma demo_aggregated: "aggregated demo_world [demo_deployment\<lparr>namespace := ns\<rparr>] = demo_state"
  by (simp add: aggregated_def total_pods_def total_request_def requested_def
      demo_deployment_def demo_world_def demo_state_def parse_500m parse_256Mi)

theorem aggregated_state_witness:
  "sum_workloads demo_world [demo_deployment\<lparr>namespace := ''ns1''\<rparr>] = Inr (3, 3 / 2, 805306368) \<and>
   (\<exists>g'. refresh_state demo_world ''ns1'' Map.empty initial_globals =
            Inr ([''ns1'' \<mapsto> \<lparr>pods = 3, cpu = 3 / 2, memory = 768 * 1024 ^ 2\<rparr>], g') \<and>
          ns_state_cache g' ''ns1'' = Some \<lparr>pods = 3, cpu = 3 / 2, memory = 768 * 1024 ^ 2\<rparr>)"
proof -
  have z: "parse_quantity demo_world (QInt 0) = Inr 0"
    by (simp add: demo_world_def parse_int_0)
  have d: "list_namespaced_deployment demo_world ''ns1'' = Inr [demo_deployment\<lparr>namespace := ''ns1''\<rparr>]"
    and s: "list_namespaced_stateful_set demo_world ''ns1'' = Inr []"
    by (simp_all add: demo_world_def)
  have a: "aggregated demo_world [demo_deployment\<lparr>namespace := ''ns1''\<rparr>] =
           \<lparr>pods = 3, cpu = 3 / 2, memory = 768 * 1024 ^ 2\<rparr>"
    by (simp add: demo_aggregated demo_state_def)
  have t: "total_pods [demo_deployment\<lparr>namespace := ''ns1''\<rparr>] = 3"
    "total_request demo_world ''cpu'' [demo_deployment\<lparr>namespace := ''ns1''\<rparr>] = 3 / 2"
    "total_request demo_world ''memory'' [demo_deployment\<lparr>namespace := ''ns1''\<rparr>] = 805306368"
    using demo_aggregated [of "''ns1''"] by (simp_all add: aggregated_def demo_state_def)
  show ?thesis
    using aggregated_state [OF z d s demo_requests_parse, of Map.empty initial_globals]
    by (simp add: a t)
qed

section \<open>The cache of namespace states\<close>

lemma within_ttl: "(t + 3 > now) = (now - t < (3::rat))"
  by auto

text \<open>One turn of the loop: a hit, and a miss or an expired entry.\<close>

lemma get_state_ns_hit:
  assumes "ns_state_cache g ns = Some cached" and "ns_state_cache_update_time g ns = Some t"
    and "time_at W (clock_reads g) - t < 3"
  shows "get_state_ns W ns state g =
           Inr (state(ns \<mapsto> cached), g\<lparr>clock_reads := clock_reads g + 1\<rparr>)"
  using assms by (simp add: get_state_ns_def within_ttl)

lemma get_state_ns_refresh:
  assumes "(ns_state_cache g ns = None \<and> k = clock_reads g) \<or>
           (ns_state_cache g ns = Some cached \<and> ns_state_cache_update_time g ns = Some t \<and>
            \<not> time_at W (clock_reads g) - t < 3 \<and> k = clock_reads g + 1)"
    and "list_namespaced_deployment W ns = Inr ds"
    and "list_namespaced_stateful_set W ns = Inr ss"
    and "sum_workloads W ds = Inr (d_replicas, d_cpu, d_memory)"
    and "sum_workloads W ss = Inr (s_replicas, s_cpu, s_memory)"
    and "st = \<lparr>pods = d_replicas + s_replicas, cpu = d_cpu + s_cpu, memory = d_memory + s_memory\<rparr>"
  shows "get_state_ns W ns state g =
           Inr (state(ns \<mapsto> st),
                g\<lparr>ns_state_cache := (ns_state_cache g)(ns \<mapsto> st),
                  ns_state_cache_update_time := (ns_state_cache_update_time g)(ns \<mapsto> time_at W k),
                  clock_reads := k + 1,
                  listing_calls := listing_calls g @ [ListDeployment ns, ListStatefulSet ns]\<rparr>)"
  using assms by (auto simp: get_state_ns_def refresh_state_def Let_def within_ttl)

text \<open>
  A turn for one namespace leaves the entries of every other namespace alone, and the
  listing calls it adds are calls for its own namespace.
\<close>

lemma refresh_state_frame:
  assumes "refresh_state W ns state g = Inr (state', g')"
  shows "(m \<noteq> ns \<longrightarrow> state' m = state m \<and> ns_state_cache g' m = ns_state_cache g m \<and>
            ns_state_cache_update_time g' m = ns_state_cache_update_time g m) \<and>
         listing_calls g' = listing_calls g @ [ListDeployment ns, ListStatefulSet ns]"
  using assms
  by (auto simp: refresh_state_def Let_def split: sum.splits prod.splits)

lemma get_state_ns_frame:
  assumes "get_state_ns W ns state g = Inr (state', g')"
  shows "(m \<noteq> ns \<longrightarrow> state' m = state m \<and> ns_state_cache g' m = ns_state_cache g m \<and>
            ns_state_cache_update_time g' m = ns_state_cache_update_time g m) \<and>
         (\<exists>calls. listing_calls g' = listing_calls g @ calls \<and>
            set calls \<subseteq> {ListDeployment ns, ListStatefulSet ns})"
proof (cases "ns_state_cache g ns")
  case None
  with assms have "refresh_state W ns state g = Inr (state', g')"
    by (simp add: get_state_ns_def)
  from refresh_state_frame [OF this, of m] show ?thesis
    by auto
next
  case (Some cached)
  show ?thesis
  proof (cases "ns_state_cache_update_time g ns")
    case None
    with Some assms show ?thesis
      by (simp add: get_state_ns_def)
  next
    case (Some t)
    show ?thesis
    proof (cases "t + 3 > time_at W (clock_reads g)")
      case True
      with \<open>ns_state_cache g ns = Some cached\<close> Some assms show ?thesis
        by (auto simp: get_state_ns_def)
    next
      case False
      with \<open>ns_state_cache g ns = Some cached\<close> Some assms
      have "refresh_state W ns state (g\<lparr>clock_reads := clock_reads g + 1\<rparr>) = Inr (state', g')"
        by (simp add: get_state_ns_def)
      from refresh_state_frame [OF this, of m] show ?thesis
        by auto
    qed
  qed
qed

lemma get_state_loop_frame:
  assumes "get_state_loop W nss state g = Inr (state', g')"
  shows "(m \<notin> set nss \<longrightarrow> state' m = state m \<and> ns_state_cache g' m = ns_state_cache g m \<and>
            ns_state_cache_update_time g' m = ns_state_cache_update_time g m) \<and>
         (\<exists>calls. listing_calls g' = listing_calls g @ calls \<and>
            (m \<notin> set nss \<longrightarrow> ListDeployment m \<notin> set calls \<and> ListStatefulSet m \<notin> set calls))"
  using assms
proof (induction nss arbitrary: state g)
  case Nil
  then show ?case by simp
next
  case (Cons n nss)
  then obtain s1 g1 where turn: "get_state_ns W n state g = Inr (s1, g1)"
    and rest: "get_state_loop W nss s1 g1 = Inr (state', g')"
    by (auto split: sum.splits)
  from get_state_ns_frame [OF turn, of m] obtain c1 where
    f1: "m \<noteq> n \<longrightarrow> s1 m = state m \<and> ns_state_cache g1 m = ns_state_cache g m \<and>
            ns_state_cache_update_time g1 m = ns_state_cache_update_time g m"
    and c1: "listing_calls g1 = listing_calls g @ c1" "set c1 \<subseteq> {ListDeployment n, ListStatefulSet n}"
    by auto
  from Cons.IH [OF rest] obtain c2 where
    f2: "m \<notin> set nss \<longrightarrow> state' m = s1 m \<and> ns_state_cache g' m = ns_state_cache g1 m \<and>
            ns_state_cache_update_time g' m = ns_state_cache_update_time g1 m"
    and c2: "listing_calls g' = listing_calls g1 @ c2"
      "m \<notin> set nss \<longrightarrow> ListDeployment m \<notin> set c2 \<and> ListStatefulSet m \<notin> set c2"
    by auto
  have "listing_calls g' = listing_calls g @ (c1 @ c2)"
    using c1 c2 by simp
  moreover have "m \<notin> set (n # nss) \<longrightarrow>
      ListDeployment m \<notin> set (c1 @ c2) \<and> ListStatefulSet m \<notin> set (c1 @ c2)"
    using c1 c2 by auto
  ultimately show ?case
    using f1 f2 by (intro conjI exI [of _ "c1 @ c2"]) auto
qed

text \<open>The loop over a list that is split at one namespace.\<close>

lemma get_state_loop_split:
  "get_state_loop W (pre @ ns # post) state g =
     (case get_state_loop W pre state g of
        Inl e \<Rightarrow> Inl e
      | Inr (state1, g1) \<Rightarrow>
          (case get_state_ns W ns state1 g1 of
             Inl e \<Rightarrow> Inl e
           | Inr (state2, g2) \<Rightarrow> get_state_loop W post state2 g2))"
  by (induction pre arbitrary: state g) (auto split: sum.splits)

text \<open>
  C8: a call of \<^verbatim>\<open>get_state\<close> whose patterns resolve to \<open>pre @ ns # post\<close> and which has
  reached the turn of \<open>ns\<close> with the dictionary \<open>state1\<close> and the globals \<open>g1\<close>. If \<open>ns\<close> is
  cached with time stamp \<open>t\<close> and the clock reads less than \<open>t + 3\<close>, the call goes on
  to the namespaces after \<open>ns\<close> with the cached state entered for \<open>ns\<close>, without a
  listing call and with the cache untouched; when no later turn is for \<open>ns\<close>, the
  returned dictionary holds the cached state for \<open>ns\<close> and no listing call made from
  this turn on is for \<open>ns\<close>. Otherwise, when \<open>ns\<close> is not cached or its entry is 3 seconds
  old or older, and the two listings and the two sums return, the call makes both
  listing calls, enters the state computed from them for \<open>ns\<close> and stores it in the
  cache with the next reading of the clock; when no later turn is for \<open>ns\<close>, the
  returned dictionary and the cache after the call hold that state and that time for
  \<open>ns\<close>.
\<close>

theorem get_state_cache:
  assumes "resolve_namespaces W namespaces = Inr (pre @ ns # post)"
    and "get_state_loop W pre Map.empty g = Inr (state1, g1)"
  shows
   "(ns_state_cache g1 ns = Some cached \<and> ns_state_cache_update_time g1 ns = Some t \<and>
     time_at W (clock_reads g1) - t < 3 \<longrightarrow>
       (\<exists>g2. get_state W namespaces g = get_state_loop W post (state1(ns \<mapsto> cached)) g2 \<and>
             listing_calls g2 = listing_calls g1 \<and>
             ns_state_cache g2 = ns_state_cache g1 \<and>
             ns_state_cache_update_time g2 = ns_state_cache_update_time g1 \<and>
             (ns \<notin> set post \<longrightarrow>
                (\<forall>state' g'. get_state W namespaces g = Inr (state', g') \<longrightarrow>
                   state' ns = Some cached \<and>
                   (\<exists>calls. listing_calls g' = listing_calls g1 @ calls \<and>
                      ListDeployment ns \<notin> set calls \<and> ListStatefulSet ns \<notin> set calls))))) \<and>
    (((ns_state_cache g1 ns = None \<and> k = clock_reads g1) \<or>
      (ns_state_cache g1 ns = Some cached \<and> ns_state_cache_update_time g1 ns = Some t \<and>
       \<not> time_at W (clock_reads g1) - t < 3 \<and> k = clock_reads g1 + 1)) \<and>
     list_namespaced_deployment W ns = Inr ds \<and>
     list_namespaced_stateful_set W ns = Inr ss \<and>
     sum_workloads W ds = Inr (d_replicas, d_cpu, d_memory) \<and>
     sum_workloads W ss = Inr (s_replicas, s_cpu, s_memory) \<and>
     st = \<lparr>pods = d_replicas + s_replicas, cpu = d_cpu + s_cpu, memory = d_memory + s_memory\<rparr>
     \<longrightarrow>
       (\<exists>g2. get_state W namespaces g = get_state_loop W post (state1(ns \<mapsto> st)) g2 \<and>
             listing_calls g2 = listing_calls g1 @ [ListDeployment ns, ListStatefulSet ns] \<and>
             ns_state_cache g2 = (ns_state_cache g1)(ns \<mapsto> st) \<and>
             ns_state_cache_update_time g2 =
               (ns_state_cache_update_time g1)(ns \<mapsto> time_at W k) \<and>
             (ns \<notin> set post \<longrightarrow>
                (\<forall>state' g'. get_state W namespaces g = Inr (state', g') \<longrightarrow>
                   state' ns = Some st \<and> ns_state_cache g' ns = Some st \<and>
                   ns_state_cache_update_time g' ns = Some (time_at W k)))))"
proof (intro conjI impI)
  assume h: "ns_state_cache g1 ns = Some cached \<and> ns_state_cache_update_time g1 ns = Some t \<and>
     time_at W (clock_reads g1) - t < 3"
  define g2 where "g2 = g1\<lparr>clock_reads := clock_reads g1 + 1\<rparr>"
  have turn: "get_state_ns W ns state1 g1 = Inr (state1(ns \<mapsto> cached), g2)"
    using h by (simp add: get_state_ns_hit g2_def)
  have call: "get_state W namespaces g = get_state_loop W post (state1(ns \<mapsto> cached)) g2"
    using assms turn by (simp add: get_state_def get_state_loop_split)
  have last: "state' ns = Some cached \<and>
        (\<exists>calls. listing_calls g' = listing_calls g1 @ calls \<and>
           ListDeployment ns \<notin> set calls \<and> ListStatefulSet ns \<notin> set calls)"
    if "ns \<notin> set post" and "get_state W namespaces g = Inr (state', g')" for state' g'
  proof -
    have "get_state_loop W post (state1(ns \<mapsto> cached)) g2 = Inr (state', g')"
      using that call by simp
    from get_state_loop_frame [OF this, of ns] that(1) show ?thesis
      by (simp add: g2_def)
  qed
  show "\<exists>g2. get_state W namespaces g = get_state_loop W post (state1(ns \<mapsto> cached)) g2 \<and>
             listing_calls g2 = listing_calls g1 \<and>
             ns_state_cache g2 = ns_state_cache g1 \<and>
             ns_state_cache_update_time g2 = ns_state_cache_update_time g1 \<and>
             (ns \<notin> set post \<longrightarrow>
                (\<forall>state' g'. get_state W namespaces g = Inr (state', g') \<longrightarrow>
                   state' ns = Some cached \<and>
                   (\<exists>calls. listing_calls g' = listing_calls g1 @ calls \<and>
                      ListDeployment ns \<notin> set calls \<and> ListStatefulSet ns \<notin> set calls)))"
    using call last by (intro exI [of _ g2]) (simp add: g2_def)
next
  assume h: "((ns_state_cache g1 ns = None \<and> k = clock_reads g1) \<or>
      (ns_state_cache g1 ns = Some cached \<and> ns_state_cache_update_time g1 ns = Some t \<and>
       \<not> time_at W (clock_reads g1) - t < 3 \<and> k = clock_reads g1 + 1)) \<and>
     list_namespaced_deployment W ns = Inr ds \<and>
     list_namespaced_stateful_set W ns = Inr ss \<and>
     sum_workloads W ds = Inr (d_replicas, d_cpu, d_memory) \<and>
     sum_workloads W ss = Inr (s_replicas, s_cpu, s_memory) \<and>
     st = \<lparr>pods = d_replicas + s_replicas, cpu = d_cpu + s_cpu, memory = d_memory + s_memory\<rparr>"
  define g2 where "g2 = g1\<lparr>ns_state_cache := (ns_state_cache g1)(ns \<mapsto> st),
                  ns_state_cache_update_time := (ns_state_cache_update_time g1)(ns \<mapsto> time_at W k),
                  clock_reads := k + 1,
                  listing_calls := listing_calls g1 @ [ListDeployment ns, ListStatefulSet ns]\<rparr>"
  have turn: "get_state_ns W ns state1 g1 = Inr (state1(ns \<mapsto> st), g2)"
    unfolding g2_def using h by (intro get_state_ns_refresh) blast+
  have call: "get_state W namespaces g = get_state_loop W post (state1(ns \<mapsto> st)) g2"
    using assms turn by (simp add: get_state_def get_state_loop_split)
  have last: "state' ns = Some st \<and> ns_state_cache g' ns = Some st \<and>
                   ns_state_cache_update_time g' ns = Some (time_at W k)"
    if "ns \<notin> set post" and "get_state W namespaces g = Inr (state', g')" for state' g'
  proof -
    have "get_state_loop W post (state1(ns \<mapsto> st)) g2 = Inr (state', g')"
      using that call by simp
    from get_state_loop_frame [OF this, of ns] that(1) show ?thesis
      by (simp add: g2_def)
  qed
  show "\<exists>g2. get_state W namespaces g = get_state_loop W post (state1(ns \<mapsto> st)) g2 \<and>
             listing_calls g2 = listing_calls g1 @ [ListDeployment ns, ListStatefulSet ns] \<and>
             ns_state_cache g2 = (ns_state_cache g1)(ns \<mapsto> st) \<and>
             ns_state_cache_update_time g2 =
               (ns_state_cache_update_time g1)(ns \<mapsto> time_at W k) \<and>
             (ns \<notin> set post \<longrightarrow>
                (\<forall>state' g'. get_state W namespaces g = Inr (state', g') \<longrightarrow>
                   state' ns = Some st \<and> ns_state_cache g' ns = Some st \<and>
                   ns_state_cache_update_time g' ns = Some (time_at W k)))"
    using call last by (intro exI [of _ g2]) (simp add: g2_def)
qed

lemma demo_sum: "sum_workloads demo_world [demo_deployment\<lparr>namespace := ns\<rparr>] = Inr (3, 3 / 2, 805306368)"
  by (simp add: sum_workloads_def demo_deployment_def demo_world_def get_request_def
      parse_500m parse_256Mi)

lemma demo_sum_empty: "sum_workloads demo_world [] = Inr (0, 0, 0)"
  by (simp add: sum_workloads_def)

lemma resolve_team_b: "resolve_namespaces demo_world [''team-b''] = Inr [''team-b'']"
  by code_simp

theorem get_state_cache_witness:
  "(\<exists>s g'. get_state demo_world [''team-b''] initial_globals = Inr (s, g') \<and>
       s ''team-b'' = Some demo_state \<and>
       listing_calls g' = [ListDeployment ''team-b'', ListStatefulSet ''team-b''] \<and>
       ns_state_cache g' ''team-b'' = Some demo_state \<and>
       ns_state_cache_update_time g' ''team-b'' = Some 100) \<and>
   (\<exists>s g'. get_state demo_world [''team-b'']
              (demo_globals 1 [ListDeployment ''team-b'', ListStatefulSet ''team-b'']) = Inr (s, g') \<and>
       s ''team-b'' = Some demo_state \<and>
       listing_calls g' = [ListDeployment ''team-b'', ListStatefulSet ''team-b'']) \<and>
   (\<exists>s g'. get_state demo_world [''team-b'']
              (demo_globals 2 [ListDeployment ''team-b'', ListStatefulSet ''team-b'']) = Inr (s, g') \<and>
       s ''team-b'' = Some demo_state \<and>
       listing_calls g' = [ListDeployment ''team-b'', ListStatefulSet ''team-b'',
                           ListDeployment ''team-b'', ListStatefulSet ''team-b''] \<and>
       ns_state_cache_update_time g' ''team-b'' = Some 105)"
proof -
  let ?calls = "[ListDeployment ''team-b'', ListStatefulSet ''team-b'']"
  let ?ds = "[demo_deployment\<lparr>namespace := ''team-b''\<rparr>]"
  have r: "resolve_namespaces demo_world [''team-b''] = Inr ([] @ ''team-b'' # [])"
    by (simp add: resolve_team_b)
  have l: "\<And>g. get_state_loop demo_world [] Map.empty g = Inr (Map.empty, g)"
    by simp
  have w: "list_namespaced_deployment demo_world ''team-b'' = Inr ?ds"
    "list_namespaced_stateful_set demo_world ''team-b'' = Inr []"
    "time_at demo_world 0 = 100" "time_at demo_world (Suc 0) = 101"
    "time_at demo_world 2 = 105" "time_at demo_world 3 = 105"
    by (simp_all add: demo_world_def)
  have st: "demo_state = \<lparr>pods = 3 + 0, cpu = 3 / 2 + 0, memory = 805306368 + 0\<rparr>"
    by (simp add: demo_state_def)
  have "\<exists>g2. get_state demo_world [''team-b''] initial_globals =
            get_state_loop demo_world [] ([''team-b'' \<mapsto> demo_state]) g2 \<and>
          listing_calls g2 = listing_calls initial_globals @ ?calls \<and>
          ns_state_cache g2 = (ns_state_cache initial_globals)(''team-b'' \<mapsto> demo_state) \<and>
          ns_state_cache_update_time g2 =
            (ns_state_cache_update_time initial_globals)(''team-b'' \<mapsto> time_at demo_world 0) \<and>
          (''team-b'' \<notin> set [] \<longrightarrow>
             (\<forall>state' g'. get_state demo_world [''team-b''] initial_globals = Inr (state', g') \<longrightarrow>
                state' ''team-b'' = Some demo_state \<and> ns_state_cache g' ''team-b'' = Some demo_state \<and>
                ns_state_cache_update_time g' ''team-b'' = Some (time_at demo_world 0)))"
    by (rule get_state_cache [OF r l, of initial_globals demo_state 100 0 ?ds "[]"
          3 "3 / 2" 805306368 0 0 0 demo_state, THEN conjunct2, THEN mp])
      (simp add: initial_globals_def w demo_sum demo_sum_empty st)
  then have first: "\<exists>s g'. get_state demo_world [''team-b''] initial_globals = Inr (s, g') \<and>
       s ''team-b'' = Some demo_state \<and> listing_calls g' = ?calls \<and>
       ns_state_cache g' ''team-b'' = Some demo_state \<and>
       ns_state_cache_update_time g' ''team-b'' = Some 100"
    by (auto simp: initial_globals_def w)
  have "\<exists>g2. get_state demo_world [''team-b''] (demo_globals 1 ?calls) =
            get_state_loop demo_world [] ([''team-b'' \<mapsto> demo_state]) g2 \<and>
          listing_calls g2 = listing_calls (demo_globals 1 ?calls) \<and>
          ns_state_cache g2 = ns_state_cache (demo_globals 1 ?calls) \<and>
          ns_state_cache_update_time g2 = ns_state_cache_update_time (demo_globals 1 ?calls) \<and>
          (''team-b'' \<notin> set [] \<longrightarrow>
             (\<forall>state' g'. get_state demo_world [''team-b''] (demo_globals 1 ?calls) = Inr (state', g') \<longrightarrow>
                state' ''team-b'' = Some demo_state \<and>
                (\<exists>calls. listing_calls g' = listing_calls (demo_globals 1 ?calls) @ calls \<and>
                   ListDeployment ''team-b'' \<notin> set calls \<and> ListStatefulSet ''team-b'' \<notin> set calls)))"
    by (rule get_state_cache [OF r l, of "demo_globals 1 ?calls" demo_state 100 0 "[]" "[]"
          0 0 0 0 0 0 demo_state, THEN conjunct1, THEN mp])
      (simp add: demo_globals_def w)
  then have second: "\<exists>s g'. get_state demo_world [''team-b''] (demo_globals 1 ?calls) = Inr (s, g') \<and>
       s ''team-b'' = Some demo_state \<and> listing_calls g' = ?calls"
    by (auto simp: demo_globals_def)
  have "\<exists>g2. get_state demo_world [''team-b''] (demo_globals 2 ?calls) =
            get_state_loop demo_world [] ([''team-b'' \<mapsto> demo_state]) g2 \<and>
          listing_calls g2 = listing_calls (demo_globals 2 ?calls) @ ?calls \<and>
          ns_state_cache g2 = (ns_state_cache (demo_globals 2 ?calls))(''team-b'' \<mapsto> demo_state) \<and>
          ns_state_cache_update_time g2 =
            (ns_state_cache_update_time (demo_globals 2 ?calls))(''team-b'' \<mapsto> time_at demo_world 3) \<and>
          (''team-b'' \<notin> set [] \<longrightarrow>
             (\<forall>state' g'. get_state demo_world [''team-b''] (demo_globals 2 ?calls) = Inr (state', g') \<longrightarrow>
                state' ''team-b'' = Some demo_state \<and> ns_state_cache g' ''team-b'' = Some demo_state \<and>
                ns_state_cache_update_time g' ''team-b'' = Some (time_at demo_world 3)))"
    by (rule get_state_cache [OF r l, of "demo_globals 2 ?calls" demo_state 100 3 ?ds "[]"
          3 "3 / 2" 805306368 0 0 0 demo_state, THEN conjunct2, THEN mp])
      (simp add: demo_globals_def w demo_sum demo_sum_empty st)
  then have third: "\<exists>s g'. get_state demo_world [''team-b''] (demo_globals 2 ?calls) = Inr (s, g') \<and>
       s ''team-b'' = Some demo_state \<and> listing_calls g' = ?calls @ ?calls \<and>
       ns_state_cache_update_time g' ''team-b'' = Some 105"
    by (auto simp: demo_globals_def w)
  from first second third show ?thesis
    by simp
qed

text \<open>
  The example of section 8 on successive calls of \<^verbatim>\<open>get_state\<close>, each on the globals
  the call before left: the first call lists, the second, one second later, does not,
  and the third, at second 105, lists again.
\<close>

lemma get_state_three_calls:
  "\<exists>s1 g1 s2 g2 s3 g3.
     get_state demo_world [''team-b''] initial_globals = Inr (s1, g1) \<and>
     listing_calls g1 = [ListDeployment ''team-b'', ListStatefulSet ''team-b''] \<and>
     get_state demo_world [''team-b''] g1 = Inr (s2, g2) \<and>
     s2 ''team-b'' = Some demo_state \<and>
     listing_calls g2 = [ListDeployment ''team-b'', ListStatefulSet ''team-b''] \<and>
     get_state demo_world [''team-b''] g2 = Inr (s3, g3) \<and>
     listing_calls g3 = [ListDeployment ''team-b'', ListStatefulSet ''team-b'',
                         ListDeployment ''team-b'', ListStatefulSet ''team-b'']"
proof -
  have w: "\<And>ns. list_namespaced_deployment demo_world ns = Inr [demo_deployment\<lparr>namespace := ns\<rparr>]"
    "\<And>ns. list_namespaced_stateful_set demo_world ns = Inr []"
    "time_at demo_world 0 = 100" "time_at demo_world (Suc 0) = 101"
    "\<And>n. time_at demo_world (Suc (Suc n)) = 105"
    by (simp_all add: demo_world_def)
  show ?thesis
    by (simp add: get_state_def resolve_team_b get_state_ns_def refresh_state_def Let_def
        initial_globals_def demo_sum demo_sum_empty demo_state_def w)
qed

end
